theory Spec2Isabelle
  imports Complex_Main
begin

section \<open>Text, numbers and dates as the parser sees them\<close>

text \<open>
  The development embeds \<^verbatim>\<open>src/parsers/kamap_parser.py\<close> (class \<^verbatim>\<open>KamapParser\<close>), the
  parser that \<^verbatim>\<open>pipeline.py\<close> runs on the text of a PDF of apartment listings.

  A Python \<^verbatim>\<open>str\<close> is modelled as a \<^typ>\<open>string\<close> whose characters are read as the code
  points U+0000 to U+00FF. The character classes below are the ones the \<^verbatim>\<open>re\<close> module
  (\<^verbatim>\<open>\d\<close>, \<^verbatim>\<open>\w\<close>, \<^verbatim>\<open>\s\<close>, \<^verbatim>\<open>.\<close>) and \<^verbatim>\<open>str.strip\<close>, \<^verbatim>\<open>str.lower\<close> use on that range.

  Exceptions are values: a function that can raise returns \<open>error + 'a\<close>. The only
  exception the parser's own calls raise is ValueError (\<^verbatim>\<open>int\<close>, \<^verbatim>\<open>float\<close>,
  \<^verbatim>\<open>datetime\<close> and tuple unpacking).

  Numbers: \<^verbatim>\<open>int\<close> is the mathematical conversion of a digit string (the interpreter's
  configurable bound on the length of a converted digit string is not modelled), and a
  \<^verbatim>\<open>float\<close> is the exact decimal value as a rational number (Python rounds it to a
  double).
\<close>

datatype error = ValueError

definition is_digit :: "char \<Rightarrow> bool" where
  \<comment> \<open>\<^verbatim>\<open>\d\<close>\<close>
  "is_digit c = (let n = (of_char c :: nat) in 48 \<le> n \<and> n \<le> 57)"

definition is_space :: "char \<Rightarrow> bool" where
  \<comment> \<open>\<^verbatim>\<open>\s\<close>, and the characters \<^verbatim>\<open>str.strip()\<close> removes\<close>
  "is_space c = (let n = (of_char c :: nat) in
     (9 \<le> n \<and> n \<le> 13) \<or> (28 \<le> n \<and> n \<le> 32) \<or> n = 133 \<or> n = 160)"

definition is_word :: "char \<Rightarrow> bool" where
  \<comment> \<open>\<^verbatim>\<open>\w\<close>: alphanumeric code points and the underscore\<close>
  "is_word c = (let n = (of_char c :: nat) in
     (48 \<le> n \<and> n \<le> 57) \<or> (65 \<le> n \<and> n \<le> 90) \<or> n = 95 \<or> (97 \<le> n \<and> n \<le> 122) \<or>
     n = 170 \<or> n = 178 \<or> n = 179 \<or> n = 181 \<or> n = 185 \<or> n = 186 \<or> (188 \<le> n \<and> n \<le> 190) \<or>
     (192 \<le> n \<and> n \<le> 214) \<or> (216 \<le> n \<and> n \<le> 246) \<or> (248 \<le> n \<and> n \<le> 255))"

definition is_any :: "char \<Rightarrow> bool" where
  \<comment> \<open>\<^verbatim>\<open>.\<close> without the DOTALL flag: every character but the line feed\<close>
  "is_any c = (c \<noteq> CHR 0x0A)"

definition is_digit_or_comma :: "char \<Rightarrow> bool" where
  \<comment> \<open>\<^verbatim>\<open>[\d,]\<close>\<close>
  "is_digit_or_comma c = (is_digit c \<or> c = CHR '','')"

definition is_s :: "char \<Rightarrow> bool" where
  \<comment> \<open>\<^verbatim>\<open>[s]\<close>\<close>
  "is_s c = (c = CHR ''s'')"

definition py_lower_char :: "char \<Rightarrow> char" where
  \<comment> \<open>\<^verbatim>\<open>str.lower\<close> on one character\<close>
  "py_lower_char c = (let n = (of_char c :: nat) in
     if (65 \<le> n \<and> n \<le> 90) \<or> (192 \<le> n \<and> n \<le> 214) \<or> (216 \<le> n \<and> n \<le> 222)
     then char_of (n + 32) else c)"

definition py_lower :: "string \<Rightarrow> string" where
  "py_lower s = map py_lower_char s"

definition py_strip :: "string \<Rightarrow> string" where
  \<comment> \<open>\<^verbatim>\<open>s.strip()\<close>\<close>
  "py_strip s = rev (dropWhile is_space (rev (dropWhile is_space s)))"

fun split_acc :: "char \<Rightarrow> string \<Rightarrow> string \<Rightarrow> string list" where
  "split_acc d acc [] = [rev acc]"
| "split_acc d acc (x # xs) =
     (if x = d then rev acc # split_acc d [] xs else split_acc d (x # acc) xs)"

definition py_split :: "char \<Rightarrow> string \<Rightarrow> string list" where
  \<comment> \<open>\<^verbatim>\<open>s.split(d)\<close> for a one-character separator\<close>
  "py_split d s = split_acc d [] s"

definition py_split1 :: "char \<Rightarrow> string \<Rightarrow> string list" where
  \<comment> \<open>\<^verbatim>\<open>s.split(d, 1)\<close>: at most one split, at the first separator\<close>
  "py_split1 d s =
     (case dropWhile (\<lambda>c. c \<noteq> d) s of
        [] \<Rightarrow> [s]
      | _ # rest \<Rightarrow> [takeWhile (\<lambda>c. c \<noteq> d) s, rest])"

definition py_replace_char :: "char \<Rightarrow> string \<Rightarrow> string \<Rightarrow> string" where
  \<comment> \<open>\<^verbatim>\<open>s.replace(a, b)\<close> for a one-character \<^verbatim>\<open>a\<close>\<close>
  "py_replace_char a b s = concat (map (\<lambda>c. if c = a then b else [c]) s)"

fun py_join :: "string \<Rightarrow> string list \<Rightarrow> string" where
  "py_join sep [] = []"
| "py_join sep [x] = x"
| "py_join sep (x # y # ys) = x @ sep @ py_join sep (y # ys)"

definition py_startswith :: "string \<Rightarrow> string \<Rightarrow> bool" where
  "py_startswith s p = (take (length p) s = p)"

definition digit_val :: "char \<Rightarrow> nat" where
  "digit_val c = of_char c - 48"

definition nat_of_digits :: "string \<Rightarrow> nat" where
  "nat_of_digits s = foldl (\<lambda>a c. 10 * a + digit_val c) 0 s"

definition py_int :: "string \<Rightarrow> error + int" where
  \<comment> \<open>\<^verbatim>\<open>int(s)\<close> on the strings the parser passes to it, which are captures of
      \<^verbatim>\<open>\d+\<close> and \<^verbatim>\<open>\d{1,2}\<close>: a non-empty run of digits is its value, the empty string
      raises. Signs, blanks and underscores never reach the call.\<close>
  "py_int s = (if s \<noteq> [] \<and> list_all is_digit s then Inr (int (nat_of_digits s)) else Inl ValueError)"

definition py_float :: "string \<Rightarrow> error + rat" where
  \<comment> \<open>\<^verbatim>\<open>float(s)\<close> on the strings the parser passes to it: digits, or digits, a point
      and digits. The value is the exact decimal one (Python rounds it to the nearest
      double, which is the same number below \<open>2 ^ 53\<close>). The empty string raises.\<close>
  "py_float s =
     (let ip = takeWhile is_digit s; r = dropWhile is_digit s in
      if ip = [] then Inl ValueError
      else (case r of
              [] \<Rightarrow> Inr (of_nat (nat_of_digits ip))
            | c # fp \<Rightarrow>
                if c = CHR ''.'' \<and> fp \<noteq> [] \<and> list_all is_digit fp
                then Inr (of_nat (nat_of_digits ip) + of_nat (nat_of_digits fp) / 10 ^ length fp)
                else Inl ValueError))"

record datetime =
  dt_year :: int
  dt_month :: int
  dt_day :: int

definition is_leap :: "int \<Rightarrow> bool" where
  "is_leap y = (y mod 4 = 0 \<and> (y mod 100 \<noteq> 0 \<or> y mod 400 = 0))"

definition days_in_month :: "int \<Rightarrow> int \<Rightarrow> int" where
  "days_in_month y m =
     (if m = 2 then (if is_leap y then 29 else 28)
      else if m = 4 \<or> m = 6 \<or> m = 9 \<or> m = 11 then 30 else 31)"

definition py_datetime :: "int \<Rightarrow> int \<Rightarrow> int \<Rightarrow> error + datetime" where
  \<comment> \<open>\<^verbatim>\<open>datetime(year, month, day)\<close>: midnight of that day, or ValueError\<close>
  "py_datetime y m d =
     (if \<not> (1 \<le> y \<and> y \<le> 9999) then Inl ValueError
      else if \<not> (1 \<le> m \<and> m \<le> 12) then Inl ValueError
      else if \<not> (1 \<le> d \<and> d \<le> days_in_month y m) then Inl ValueError
      else Inr \<lparr>dt_year = y, dt_month = m, dt_day = d\<rparr>)"

section \<open>Regular expressions with Python's backtracking semantics\<close>

text \<open>
  A pattern is a term of type \<open>rx\<close>. \<open>rmatch\<close> matches a pattern at the head of a
  string the way the \<^verbatim>\<open>re\<close> module does: alternatives left to right, \<^verbatim>\<open>?\<close> and
  \<^verbatim>\<open>*\<close> greedy, and a continuation that is asked again after each failure
  (backtracking). The flag \<open>ic\<close> is \<^verbatim>\<open>re.I\<close>. Captured groups are a map from the
  group number to the captured text.
\<close>

datatype rx =
    Cls "char \<Rightarrow> bool"
  | Lit string
  | Seq rx rx
  | Alt rx rx
  | Opt rx
  | Star rx
  | Grp nat rx

type_synonym caps = "nat \<rightharpoonup> string"

definition ascii_lower :: "char \<Rightarrow> char" where
  "ascii_lower c = (let n = (of_char c :: nat) in if 65 \<le> n \<and> n \<le> 90 then char_of (n + 32) else c)"

definition chr_eq :: "bool \<Rightarrow> char \<Rightarrow> char \<Rightarrow> bool" where
  \<comment> \<open>a pattern character against a text character\<close>
  "chr_eq ic a x = (if ic then ascii_lower a = ascii_lower x else a = x)"

fun strip_lit :: "bool \<Rightarrow> string \<Rightarrow> string \<Rightarrow> string option" where
  "strip_lit ic [] s = Some s"
| "strip_lit ic (a # as) [] = None"
| "strip_lit ic (a # as) (x # xs) = (if chr_eq ic a x then strip_lit ic as xs else None)"

fun rmatch :: "bool \<Rightarrow> rx \<Rightarrow> string \<Rightarrow> caps \<Rightarrow> (string \<Rightarrow> caps \<Rightarrow> 'a option) \<Rightarrow> 'a option" where
  "rmatch ic (Cls p) s c k = (case s of [] \<Rightarrow> None | x # xs \<Rightarrow> if p x then k xs c else None)"
| "rmatch ic (Lit w) s c k = (case strip_lit ic w s of None \<Rightarrow> None | Some s' \<Rightarrow> k s' c)"
| "rmatch ic (Seq r1 r2) s c k = rmatch ic r1 s c (\<lambda>s' c'. rmatch ic r2 s' c' k)"
| "rmatch ic (Alt r1 r2) s c k =
     (case rmatch ic r1 s c k of Some v \<Rightarrow> Some v | None \<Rightarrow> rmatch ic r2 s c k)"
| "rmatch ic (Opt r) s c k =
     (case rmatch ic r s c k of Some v \<Rightarrow> Some v | None \<Rightarrow> k s c)"
| "rmatch ic (Star r) s c k =
     (case rmatch ic r s c
             (\<lambda>s' c'. if length s' < length s then rmatch ic (Star r) s' c' k else None) of
        Some v \<Rightarrow> Some v
      | None \<Rightarrow> k s c)"
| "rmatch ic (Grp n r) s c k =
     rmatch ic r s c (\<lambda>s' c'. k s' (c'(n \<mapsto> take (length s - length s') s)))"

definition Plus :: "rx \<Rightarrow> rx" where
  \<comment> \<open>\<^verbatim>\<open>r+\<close>\<close>
  "Plus r = Seq r (Star r)"

record re_match =
  m_start :: nat
  m_end :: nat
  m_groups :: caps

definition match_at :: "bool \<Rightarrow> rx \<Rightarrow> nat \<Rightarrow> string \<Rightarrow> re_match option" where
  \<comment> \<open>a match that starts at offset \<open>i\<close>, where \<open>s\<close> is the text from \<open>i\<close> on\<close>
  "match_at ic r i s =
     rmatch ic r s Map.empty
       (\<lambda>s' c. Some \<lparr>m_start = i, m_end = i + (length s - length s'), m_groups = c\<rparr>)"

fun search_from :: "bool \<Rightarrow> rx \<Rightarrow> nat \<Rightarrow> string \<Rightarrow> re_match option" where
  "search_from ic r i [] = match_at ic r i []"
| "search_from ic r i (x # xs) =
     (case match_at ic r i (x # xs) of
        Some m \<Rightarrow> Some m
      | None \<Rightarrow> search_from ic r (Suc i) xs)"

definition re_search :: "bool \<Rightarrow> rx \<Rightarrow> string \<Rightarrow> re_match option" where
  \<comment> \<open>\<^verbatim>\<open>re.search(pattern, s, flags)\<close>: the leftmost match\<close>
  "re_search ic r s = search_from ic r 0 s"

definition group :: "re_match \<Rightarrow> nat \<Rightarrow> string" where
  \<comment> \<open>\<^verbatim>\<open>m.group(n)\<close> for a group that took part in the match, as every group the
      parser reads does (\<open>re_search_group\<close> below); \<^verbatim>\<open>findall\<close> gives the empty string
      for a group that did not\<close>
  "group m n = (case m_groups m n of Some g \<Rightarrow> g | None \<Rightarrow> [])"

text \<open>
  \<^verbatim>\<open>re.findall\<close> for a pattern with two groups: the matches from left to right, each
  search starting where the last match ended. A match of the unit pattern is never
  empty (\<open>unit_match_advances\<close> below), so the scan always moves on and the second
  branch of the \<open>if\<close> is never taken for it.
\<close>

function re_findall2 :: "bool \<Rightarrow> rx \<Rightarrow> string \<Rightarrow> (string \<times> string) list" where
  "re_findall2 ic r s =
     (case re_search ic r s of
        None \<Rightarrow> []
      | Some m \<Rightarrow>
          if length (drop (m_end m) s) < length s
          then (group m 1, group m 2) # re_findall2 ic r (drop (m_end m) s)
          else [(group m 1, group m 2)])"
  by pat_completeness auto
termination
  by (relation "measure (\<lambda>(ic, r, s). length s)") auto

declare re_findall2.simps [simp del]

section \<open>The patterns of the parser\<close>

definition digits1 :: rx where
  \<comment> \<open>\<^verbatim>\<open>\d+\<close>\<close>
  "digits1 = Plus (Cls is_digit)"

definition digits_1_2 :: rx where
  \<comment> \<open>\<^verbatim>\<open>\d{1,2}\<close>\<close>
  "digits_1_2 = Seq (Cls is_digit) (Opt (Cls is_digit))"

definition digits_4_5 :: rx where
  \<comment> \<open>\<^verbatim>\<open>\d{4,5}\<close>\<close>
  "digits_4_5 =
     Seq (Cls is_digit) (Seq (Cls is_digit) (Seq (Cls is_digit) (Seq (Cls is_digit)
       (Opt (Cls is_digit)))))"

definition unit_pattern :: rx where
  \<comment> \<open>\<^verbatim>\<open>(\w+)\s*\((\d{1,2}/\d{1,2})\)\<close>\<close>
  "unit_pattern =
     Seq (Grp 1 (Plus (Cls is_word)))
    (Seq (Star (Cls is_space))
    (Seq (Lit ''('')
    (Seq (Grp 2 (Seq digits_1_2 (Seq (Lit ''/'') digits_1_2)))
         (Lit '')''))))"

definition price_pattern :: rx where
  \<comment> \<open>\<^verbatim>\<open>\$?([\d,]+)\<close>\<close>
  "price_pattern = Seq (Opt (Lit ''$'')) (Grp 1 (Plus (Cls is_digit_or_comma)))"

definition bed_pattern :: rx where
  \<comment> \<open>\<^verbatim>\<open>(\d+)\s*(Bed|Singles?|Person)\<close>\<close>
  "bed_pattern =
     Seq (Grp 1 digits1)
    (Seq (Star (Cls is_space))
         (Grp 2 (Alt (Lit ''Bed'')
                (Alt (Seq (Lit ''Single'') (Opt (Lit ''s'')))
                     (Lit ''Person'')))))"

definition bath_pattern :: rx where
  \<comment> \<open>\<^verbatim>\<open>(\d+(?:\.\d+)?)\s*Bath\<close>\<close>
  "bath_pattern =
     Seq (Grp 1 (Seq digits1 (Opt (Seq (Lit ''.'') digits1))))
    (Seq (Star (Cls is_space))
         (Lit ''Bath''))"

definition parking_cost_pattern :: rx where
  \<comment> \<open>\<^verbatim>\<open>\$(\d+)\s*per year\<close>\<close>
  "parking_cost_pattern =
     Seq (Lit ''$'') (Seq (Grp 1 digits1) (Seq (Star (Cls is_space)) (Lit ''per year'')))"

definition internet_pattern :: rx where
  \<comment> \<open>\<^verbatim>\<open>Free.*Internet\<close>\<close>
  "internet_pattern = Seq (Lit ''Free'') (Seq (Star (Cls is_any)) (Lit ''Internet''))"

definition water_trash_pattern :: rx where
  \<comment> \<open>\<^verbatim>\<open>Water.*Trash|Trash.*Water\<close>\<close>
  "water_trash_pattern =
     Alt (Seq (Lit ''Water'') (Seq (Star (Cls is_any)) (Lit ''Trash'')))
         (Seq (Lit ''Trash'') (Seq (Star (Cls is_any)) (Lit ''Water'')))"

definition washer_dryer_pattern :: rx where
  \<comment> \<open>\<^verbatim>\<open>Washer.*Dryer\<close>\<close>
  "washer_dryer_pattern = Seq (Lit ''Washer'') (Seq (Star (Cls is_any)) (Lit ''Dryer''))"

definition gas_pattern :: rx where
  \<comment> \<open>\<^verbatim>\<open>Gas\<close>\<close>
  "gas_pattern = Lit ''Gas''"

definition street_names :: rx where
  "street_names =
     Alt (Lit ''Cordoba'') (Alt (Lit ''Abrego'') (Alt (Lit ''El Nido'') (Alt (Lit ''Segovia'')
    (Alt (Lit ''Sabado Tarde'') (Alt (Lit ''Trigo'') (Alt (Lit ''Picasso'') (Alt (Lit ''Pasado'')
    (Alt (Lit ''Camino Corto'') (Lit ''Embarcadero del Norte'')))))))))"

definition street_suffixes :: rx where
  "street_suffixes =
     Alt (Lit ''Rd'') (Alt (Lit ''St'') (Alt (Lit ''Ave'') (Alt (Lit ''Dr'') (Lit ''Ln''))))"

definition address_pattern :: rx where
  \<comment> \<open>\<^verbatim>\<open>(\d{4,5}\s+(?:Cordoba|...|Embarcadero del Norte)(?:\s+(?:Rd|St|Ave|Dr|Ln))?)\<close>\<close>
  "address_pattern =
     Grp 1 (Seq digits_4_5
           (Seq (Plus (Cls is_space))
           (Seq street_names
                (Opt (Seq (Plus (Cls is_space)) street_suffixes)))))"

definition unit_marker_pattern :: rx where
  \<comment> \<open>\<^verbatim>\<open>Unit[s]?\s*#\<close>\<close>
  "unit_marker_pattern =
     Seq (Lit ''Unit'') (Seq (Opt (Cls is_s)) (Seq (Star (Cls is_space)) (Lit ''#'')))"

section \<open>The parser\<close>

record unit_info =
  ui_unit_number :: string
  ui_available_date :: datetime

record room_info =
  ri_bedrooms :: "int option"
  ri_bathrooms :: "rat option"
  ri_room_type :: string
  ri_person_capacity :: "int option"

record features =
  ft_is_remodeled :: bool
  ft_has_balcony :: bool
  ft_has_patio :: bool
  ft_has_parking :: bool
  ft_split_floor_plan :: bool
  ft_parking_cost_yearly :: rat
  ft_amenities :: string

record listing =
  listing_id :: string
  property_management :: string
  address :: string
  unit_number :: string
  price_monthly :: "rat option"
  available_date :: datetime
  source_url :: string
  scraped_date :: nat
  bedrooms :: "int option"
  bathrooms :: "rat option"
  room_type :: string
  person_capacity :: "int option"
  is_remodeled :: bool
  has_balcony :: bool
  has_patio :: bool
  has_parking :: bool
  split_floor_plan :: bool
  parking_cost_yearly :: rat
  amenities :: string
  description :: string

text \<open>
  The parser object. \<^verbatim>\<open>extract_text\<close> reads the PDF through an external library; the
  model takes the extracted text as an argument of \<open>parse_all\<close>. \<^verbatim>\<open>datetime.now()\<close> is
  the argument \<open>now\<close>: \<open>now k\<close> is what the clock shows when the record that becomes
  element \<open>k\<close> of \<^verbatim>\<open>self.listings\<close> is built.
\<close>

record parser =
  pdf_path :: string
  current_year :: int
  listings :: "listing list"

definition init :: "string \<Rightarrow> parser" where
  \<comment> \<open>\<^verbatim>\<open>KamapParser.__init__\<close>\<close>
  "init path = \<lparr>pdf_path = path, current_year = 2026, listings = []\<rparr>"

definition month_day :: "string \<Rightarrow> error + int \<times> int" where
  \<comment> \<open>\<^verbatim>\<open>month, day = map(int, date_str.split('/'))\<close>; unpacking anything but two
      values raises ValueError\<close>
  "month_day date_str =
     (case py_split CHR ''/'' date_str of
        [a, b] \<Rightarrow>
          (case py_int a of
             Inl e \<Rightarrow> Inl e
           | Inr m \<Rightarrow> (case py_int b of Inl e \<Rightarrow> Inl e | Inr d \<Rightarrow> Inr (m, d)))
      | _ \<Rightarrow> Inl ValueError)"

definition unit_entry :: "parser \<Rightarrow> string \<Rightarrow> string \<Rightarrow> error + unit_info" where
  \<comment> \<open>the body of the \<^verbatim>\<open>try\<close> in \<^verbatim>\<open>parse_unit_numbers\<close>\<close>
  "unit_entry self unit_num date_str =
     (case month_day date_str of
        Inl e \<Rightarrow> Inl e
      | Inr (month, day) \<Rightarrow>
          (case py_datetime (current_year self) month day of
             Inl e \<Rightarrow> Inl e
           | Inr available_date' \<Rightarrow>
               Inr \<lparr>ui_unit_number = unit_num, ui_available_date = available_date'\<rparr>))"

fun units_loop :: "parser \<Rightarrow> (string \<times> string) list \<Rightarrow> unit_info list" where
  \<comment> \<open>the \<^verbatim>\<open>for\<close> loop of \<^verbatim>\<open>parse_unit_numbers\<close>; \<^verbatim>\<open>except ValueError: continue\<close>\<close>
  "units_loop self [] = []"
| "units_loop self ((unit_num, date_str) # matches) =
     (case unit_entry self unit_num date_str of
        Inl ValueError \<Rightarrow> units_loop self matches
      | Inr u \<Rightarrow> u # units_loop self matches)"

definition parse_unit_numbers :: "parser \<Rightarrow> string \<Rightarrow> unit_info list" where
  "parse_unit_numbers self unit_text = units_loop self (re_findall2 False unit_pattern unit_text)"

definition parse_price :: "string \<Rightarrow> error + rat option" where
  "parse_price price_str =
     (case re_search False price_pattern price_str of
        Some m \<Rightarrow>
          (case py_float (py_replace_char CHR '','' [] (group m 1)) of
             Inl e \<Rightarrow> Inl e
           | Inr v \<Rightarrow> Inr (Some v))
      | None \<Rightarrow> Inr None)"

definition parse_room_type :: "string \<Rightarrow> error + room_info" where
  "parse_room_type room_str =
     (let bed_match = re_search False bed_pattern room_str;
          bath_match = re_search False bath_pattern room_str in
      case (case bed_match of
              Some m \<Rightarrow> (case py_int (group m 1) of Inl e \<Rightarrow> Inl e | Inr v \<Rightarrow> Inr (Some v))
            | None \<Rightarrow> Inr None) of
        Inl e \<Rightarrow> Inl e
      | Inr beds \<Rightarrow>
          (case (case bath_match of
                   Some m \<Rightarrow> (case py_float (group m 1) of Inl e \<Rightarrow> Inl e | Inr v \<Rightarrow> Inr (Some v))
                 | None \<Rightarrow> Inr None) of
             Inl e \<Rightarrow> Inl e
           | Inr baths \<Rightarrow>
               Inr \<lparr>ri_bedrooms = beds,
                    ri_bathrooms = baths,
                    ri_room_type = (case bed_match of Some m \<Rightarrow> group m 2 | None \<Rightarrow> ''Unknown''),
                    ri_person_capacity = beds\<rparr>))"

definition found :: "bool \<Rightarrow> rx \<Rightarrow> string \<Rightarrow> bool" where
  \<comment> \<open>\<^verbatim>\<open>bool(re.search(pattern, s, flags))\<close>\<close>
  "found ic r s = (re_search ic r s \<noteq> None)"

definition amenity_tags :: "string \<Rightarrow> string list" where
  \<comment> \<open>the list \<^verbatim>\<open>amenities\<close> of \<^verbatim>\<open>extract_features\<close> after its four appends\<close>
  "amenity_tags description' =
     (if found True internet_pattern description' then [''Free Internet''] else []) @
     (if found True water_trash_pattern description' then [''Water/Trash Included''] else []) @
     (if found True washer_dryer_pattern description' then [''In-Unit Washer/Dryer''] else []) @
     (if found True gas_pattern description' then [''Gas Included''] else [])"

definition extract_features :: "string \<Rightarrow> error + features" where
  "extract_features description' =
     (case (case re_search False parking_cost_pattern description' of
              Some m \<Rightarrow> py_float (group m 1)
            | None \<Rightarrow> Inr 0) of
        Inl e \<Rightarrow> Inl e
      | Inr cost \<Rightarrow>
          (let amenities' = amenity_tags description' in
           Inr \<lparr>ft_is_remodeled = found True (Lit ''Remodeled'') description',
                ft_has_balcony = found True (Lit ''Balcony'') description',
                ft_has_patio = found True (Lit ''Patio'') description',
                ft_has_parking = found True (Lit ''Parking Available'') description',
                ft_split_floor_plan = found True (Lit ''Split Floor Plan'') description',
                ft_parking_cost_yearly = cost,
                ft_amenities = (if amenities' \<noteq> [] then py_join '', '' amenities' else ''None listed'')\<rparr>))"

definition make_listing_id :: "string \<Rightarrow> string \<Rightarrow> string" where
  \<comment> \<open>\<^verbatim>\<open>f"kamap_{address.replace(' ', '_')}_{unit_info['unit_number']}".lower()\<close>\<close>
  "make_listing_id address' unit_number' =
     py_lower (''kamap_'' @ py_replace_char CHR '' '' ''_'' address' @ ''_'' @ unit_number')"

definition make_listing ::
  "nat \<Rightarrow> string \<Rightarrow> string \<Rightarrow> rat option \<Rightarrow> room_info \<Rightarrow> features \<Rightarrow> unit_info \<Rightarrow> listing" where
  \<comment> \<open>the dictionary built in the loop of \<^verbatim>\<open>_parse_listing_line\<close>\<close>
  "make_listing scraped line address' price room ft u =
     \<lparr>listing_id = make_listing_id address' (ui_unit_number u),
      property_management = ''Kamap Property Management'',
      address = address' @ '', Isla Vista, CA 93117'',
      unit_number = ui_unit_number u,
      price_monthly = price,
      available_date = ui_available_date u,
      source_url = ''https://www.kamap.net/'',
      scraped_date = scraped,
      bedrooms = ri_bedrooms room,
      bathrooms = ri_bathrooms room,
      room_type = ri_room_type room,
      person_capacity = ri_person_capacity room,
      is_remodeled = ft_is_remodeled ft,
      has_balcony = ft_has_balcony ft,
      has_patio = ft_has_patio ft,
      has_parking = ft_has_parking ft,
      split_floor_plan = ft_split_floor_plan ft,
      parking_cost_yearly = ft_parking_cost_yearly ft,
      amenities = ft_amenities ft,
      description = py_strip line\<rparr>"

fun append_listings ::
  "(nat \<Rightarrow> nat) \<Rightarrow> parser \<Rightarrow> string \<Rightarrow> string \<Rightarrow> rat option \<Rightarrow> room_info \<Rightarrow> features \<Rightarrow>
   unit_info list \<Rightarrow> parser" where
  \<comment> \<open>\<^verbatim>\<open>for unit_info in units: ... self.listings.append(listing)\<close>\<close>
  "append_listings now self line address' price room ft [] = self"
| "append_listings now self line address' price room ft (u # us) =
     append_listings now
       (self\<lparr>listings := listings self @
          [make_listing (now (length (listings self))) line address' price room ft u]\<rparr>)
       line address' price room ft us"

definition parse_listing_line :: "(nat \<Rightarrow> nat) \<Rightarrow> parser \<Rightarrow> string \<Rightarrow> string \<Rightarrow> error + parser" where
  \<comment> \<open>\<^verbatim>\<open>_parse_listing_line\<close>; the result is the parser after the call, or the
      exception that left it\<close>
  "parse_listing_line now self line address' =
     (case py_split1 CHR '' '' line of
        [price_tok, rest] \<Rightarrow>
          (case parse_price price_tok of
             Inl e \<Rightarrow> Inl e
           | Inr price \<Rightarrow>
               (case re_search False unit_marker_pattern rest of
                  None \<Rightarrow> Inr self
                | Some unit_match \<Rightarrow>
                    (let room_part = py_strip (take (m_start unit_match) rest);
                         unit_part = py_strip (drop (m_end unit_match) rest) in
                     case parse_room_type room_part of
                       Inl e \<Rightarrow> Inl e
                     | Inr room \<Rightarrow>
                         (let units = parse_unit_numbers self unit_part in
                          case extract_features (line @ '' '' @ unit_part) of
                            Inl e \<Rightarrow> Inl e
                          | Inr ft \<Rightarrow>
                              Inr (append_listings now self line address' price room ft units)))))
      | _ \<Rightarrow> Inr self)"

fun walk :: "(nat \<Rightarrow> nat) \<Rightarrow> parser \<Rightarrow> string option \<Rightarrow> string list \<Rightarrow> error + parser" where
  \<comment> \<open>the \<^verbatim>\<open>for line in text.split('\n')\<close> loop of \<^verbatim>\<open>parse_all\<close>, with
      \<^verbatim>\<open>current_address\<close> as its third argument; in the test
      \<^verbatim>\<open>line.startswith('$') and current_address\<close> both \<^verbatim>\<open>None\<close> and \<^verbatim>\<open>''\<close> are false\<close>
  "walk now self current_address [] = Inr self"
| "walk now self current_address (l # ls) =
     (let line = py_strip l in
      case re_search True address_pattern line of
        Some addr_match \<Rightarrow> walk now self (Some (group addr_match 1)) ls
      | None \<Rightarrow>
          (case current_address of
             None \<Rightarrow> walk now self current_address ls
           | Some a \<Rightarrow>
               if py_startswith line ''$'' \<and> a \<noteq> []
               then (case parse_listing_line now self line a of
                       Inl e \<Rightarrow> Inl e
                     | Inr self' \<Rightarrow> walk now self' current_address ls)
               else walk now self current_address ls))"

definition parse_all :: "(nat \<Rightarrow> nat) \<Rightarrow> parser \<Rightarrow> string \<Rightarrow> error + parser \<times> listing list" where
  \<comment> \<open>\<^verbatim>\<open>parse_all\<close> on the text \<^verbatim>\<open>extract_text\<close> returned: the parser after the
      call and the returned \<^verbatim>\<open>self.listings\<close>\<close>
  "parse_all now self text =
     (case walk now self None (py_split CHR 0x0A text) of
        Inl e \<Rightarrow> Inl e
      | Inr self' \<Rightarrow> Inr (self', listings self'))"

definition run :: "(nat \<Rightarrow> nat) \<Rightarrow> string \<Rightarrow> string \<Rightarrow> error + listing list" where
  \<comment> \<open>\<^verbatim>\<open>KamapParser(path).parse_all()\<close>, as \<^verbatim>\<open>pipeline.py\<close> calls it, on a PDF whose
      extracted text is \<open>text\<close>\<close>
  "run now path text =
     (case parse_all now (init path) text of Inl e \<Rightarrow> Inl e | Inr (self', ls) \<Rightarrow> Inr ls)"

section \<open>Notions used to state and prove the properties\<close>

subsection \<open>What a pattern matches\<close>

text \<open>
  \<open>lang ic r w\<close>: the string \<open>w\<close> is matched by the pattern \<open>r\<close> (under \<^verbatim>\<open>re.I\<close> when
  \<open>ic\<close>), in the textbook sense. \<open>groups\<close> lists the groups of a pattern with their
  bodies, \<open>must\<close> the groups that take part in every match, \<open>nullable\<close> says whether a
  pattern matches the empty string. \<open>caps_ok\<close> and \<open>sound_at\<close> state what a successful
  \<open>rmatch\<close> guarantees: the text consumed is in \<open>lang\<close>, and each captured group holds
  a string its body matches.
\<close>

inductive lang :: "bool \<Rightarrow> rx \<Rightarrow> string \<Rightarrow> bool" for ic :: bool where
  lang_Cls: "p x \<Longrightarrow> lang ic (Cls p) [x]"
| lang_Lit: "list_all2 (chr_eq ic) w x \<Longrightarrow> lang ic (Lit w) x"
| lang_Seq: "lang ic r1 u \<Longrightarrow> lang ic r2 v \<Longrightarrow> lang ic (Seq r1 r2) (u @ v)"
| lang_AltL: "lang ic r1 u \<Longrightarrow> lang ic (Alt r1 r2) u"
| lang_AltR: "lang ic r2 u \<Longrightarrow> lang ic (Alt r1 r2) u"
| lang_OptN: "lang ic (Opt r) []"
| lang_OptS: "lang ic r u \<Longrightarrow> lang ic (Opt r) u"
| lang_StarN: "lang ic (Star r) []"
| lang_StarS: "lang ic r u \<Longrightarrow> lang ic (Star r) v \<Longrightarrow> lang ic (Star r) (u @ v)"
| lang_Grp: "lang ic r u \<Longrightarrow> lang ic (Grp n r) u"

fun groups :: "rx \<Rightarrow> (nat \<times> rx) list" where
  "groups (Cls p) = []"
| "groups (Lit w) = []"
| "groups (Seq r1 r2) = groups r1 @ groups r2"
| "groups (Alt r1 r2) = groups r1 @ groups r2"
| "groups (Opt r) = groups r"
| "groups (Star r) = groups r"
| "groups (Grp n r) = (n, r) # groups r"

fun must :: "rx \<Rightarrow> nat set" where
  "must (Cls p) = {}"
| "must (Lit w) = {}"
| "must (Seq r1 r2) = must r1 \<union> must r2"
| "must (Alt r1 r2) = must r1 \<inter> must r2"
| "must (Opt r) = {}"
| "must (Star r) = {}"
| "must (Grp n r) = insert n (must r)"

definition caps_ok :: "bool \<Rightarrow> (nat \<times> rx) set \<Rightarrow> caps \<Rightarrow> bool" where
  "caps_ok ic G c = (\<forall>n g. c n = Some g \<longrightarrow> (\<exists>b. (n, b) \<in> G \<and> lang ic b g))"

definition sound_at ::
  "bool \<Rightarrow> (nat \<times> rx) set \<Rightarrow> rx \<Rightarrow> string \<Rightarrow> caps \<Rightarrow> (string \<Rightarrow> caps \<Rightarrow> 'a option) \<Rightarrow> 'a \<Rightarrow> bool" where
  "sound_at ic G r s c k v =
     (\<exists>w s' c'. s = w @ s' \<and> lang ic r w \<and> caps_ok ic G c' \<and> dom c \<subseteq> dom c' \<and>
        must r \<subseteq> dom c' \<and> k s' c' = Some v)"

fun nullable :: "rx \<Rightarrow> bool" where
  "nullable (Cls p) = False"
| "nullable (Lit w) = (w = [])"
| "nullable (Seq r1 r2) = (nullable r1 \<and> nullable r2)"
| "nullable (Alt r1 r2) = (nullable r1 \<or> nullable r2)"
| "nullable (Opt r) = True"
| "nullable (Star r) = True"
| "nullable (Grp n r) = nullable r"

subsection \<open>Notions for the price extractor\<close>




subsection \<open>Notions for the assembler and the walk\<close>

text \<open>
  \<open>line_fields\<close> is the part of \<open>parse_listing_line\<close> before its loop: the exception
  it raises, \<open>None\<close> where it returns early, or the price, room configuration,
  features and unit/date pairs. \<open>line_pairs\<close> is the list of unit/date pairs of a line
  alone. \<open>listing_lines\<close> lists the lines a walk hands to the assembler, each with
  the address it is under. \<open>listing_triple\<close> is the triple (address, unit number,
  available date) of a record, \<open>line_triples\<close> the triples of a line's pairs.
  \<open>erase_clock\<close> forgets the time a record was built, \<open>line_records\<close> are the records
  of a line up to that time, \<open>id_ok\<close> says that a record's id is made from its address
  and unit number, \<open>lines_ok\<close> that no line of a list makes the assembler raise.
  \<open>valid_month_day\<close> is the calendar's test of a month and a day in a year, and
  \<open>pair_unit\<close> the entry of a matched pair with a valid date. \<open>amenity_table\<close> is the
  list of amenity patterns with their tags, in the order \<^verbatim>\<open>extract_features\<close> tests them.
\<close>

definition line_fields ::
  "parser \<Rightarrow> string \<Rightarrow> error + (rat option \<times> room_info \<times> features \<times> unit_info list) option" where
  "line_fields self line =
     (case py_split1 CHR '' '' line of
        [price_tok, rest] \<Rightarrow>
          (case parse_price price_tok of
             Inl e \<Rightarrow> Inl e
           | Inr price \<Rightarrow>
               (case re_search False unit_marker_pattern rest of
                  None \<Rightarrow> Inr None
                | Some unit_match \<Rightarrow>
                    (let room_part = py_strip (take (m_start unit_match) rest);
                         unit_part = py_strip (drop (m_end unit_match) rest) in
                     case parse_room_type room_part of
                       Inl e \<Rightarrow> Inl e
                     | Inr room \<Rightarrow>
                         (case extract_features (line @ '' '' @ unit_part) of
                            Inl e \<Rightarrow> Inl e
                          | Inr ft \<Rightarrow> Inr (Some (price, room, ft, parse_unit_numbers self unit_part))))))
      | _ \<Rightarrow> Inr None)"

definition line_pairs :: "parser \<Rightarrow> string \<Rightarrow> unit_info list" where
  "line_pairs self line =
     (case py_split1 CHR '' '' line of
        [price_tok, rest] \<Rightarrow>
          (case re_search False unit_marker_pattern rest of
             None \<Rightarrow> []
           | Some unit_match \<Rightarrow> parse_unit_numbers self (py_strip (drop (m_end unit_match) rest)))
      | _ \<Rightarrow> [])"

fun listing_lines :: "string option \<Rightarrow> string list \<Rightarrow> (string \<times> string) list" where
  "listing_lines current_address [] = []"
| "listing_lines current_address (l # ls) =
     (let line = py_strip l in
      case re_search True address_pattern line of
        Some addr_match \<Rightarrow> listing_lines (Some (group addr_match 1)) ls
      | None \<Rightarrow>
          (case current_address of
             None \<Rightarrow> listing_lines current_address ls
           | Some a \<Rightarrow>
               if py_startswith line ''$'' \<and> a \<noteq> []
               then (a, line) # listing_lines current_address ls
               else listing_lines current_address ls))"

definition listing_triple :: "listing \<Rightarrow> string \<times> string \<times> datetime" where
  "listing_triple r = (address r, unit_number r, available_date r)"

definition line_triples :: "parser \<Rightarrow> string \<times> string \<Rightarrow> (string \<times> string \<times> datetime) list" where
  "line_triples self al =
     map (\<lambda>u. (fst al @ '', Isla Vista, CA 93117'', ui_unit_number u, ui_available_date u))
       (line_pairs self (snd al))"

definition erase_clock :: "listing \<Rightarrow> listing" where
  "erase_clock r = r\<lparr>scraped_date := 0\<rparr>"

definition line_records :: "parser \<Rightarrow> string \<times> string \<Rightarrow> listing list" where
  "line_records self al =
     (case line_fields self (snd al) of
        Inr (Some (price, room, ft, units)) \<Rightarrow> map (make_listing 0 (snd al) (fst al) price room ft) units
      | _ \<Rightarrow> [])"


definition lines_ok :: "parser \<Rightarrow> (string \<times> string) list \<Rightarrow> bool" where
  "lines_ok self als = list_all (\<lambda>al. \<not> isl (line_fields self (snd al))) als"



definition amenity_table :: "(rx \<times> string) list" where
  "amenity_table =
     [(internet_pattern, ''Free Internet''),
      (water_trash_pattern, ''Water/Trash Included''),
      (washer_dryer_pattern, ''In-Unit Washer/Dryer''),
      (gas_pattern, ''Gas Included'')]"

subsection \<open>Example inputs\<close>

text \<open>
  The worked example of the specification (\<open>example_text\<close>, \<open>example_record\<close>), a line
  with two unit/date pairs, a text whose second line has a price token of commas only,
  a unit list with invalid dates, two descriptions, and a text that lists one unit
  twice. \<open>emitted\<close> are the records the assembler appends to a new parser,
  \<open>run_triples\<close> the triples of a run's records, \<open>frozen_clock\<close> a clock that stands
  still, \<open>differ_only_in_unit_and_date\<close> and \<open>share_all_but_unit_and_date\<close> the
  specification's "differing only in unit number and available date".
\<close>

definition example_text :: string where
  "example_text = ''6543 Segovia Rd'' @ [CHR 0x0A] @ ''$3,250 2 Bed / 2 Bath Unit #A101 (8/15)''"

definition example_record :: "nat \<Rightarrow> listing" where
  "example_record t =
     \<lparr>listing_id = ''kamap_6543_segovia_rd_a101'',
      property_management = ''Kamap Property Management'',
      address = ''6543 Segovia Rd, Isla Vista, CA 93117'',
      unit_number = ''A101'',
      price_monthly = Some 3250,
      available_date = \<lparr>dt_year = 2026, dt_month = 8, dt_day = 15\<rparr>,
      source_url = ''https://www.kamap.net/'',
      scraped_date = t,
      bedrooms = Some 2,
      bathrooms = Some 2,
      room_type = ''Bed'',
      person_capacity = Some 2,
      is_remodeled = False,
      has_balcony = False,
      has_patio = False,
      has_parking = False,
      split_floor_plan = False,
      parking_cost_yearly = 0,
      amenities = ''None listed'',
      description = ''$3,250 2 Bed / 2 Bath Unit #A101 (8/15)''\<rparr>"





definition comma_price_text :: string where
  "comma_price_text =
     ''6543 Segovia Rd'' @ [CHR 0x0A] @ ''$, x'' @ [CHR 0x0A] @
     ''$3,250 2 Bed / 2 Bath Unit #A101 (8/15)''"


definition plain_description :: string where
  "plain_description = ''$3,250 2 Bed / 2 Bath Unit #A101 (8/15)''"

definition amenity_description :: string where
  "amenity_description = ''Free High-Speed Internet, Washer/Dryer in unit''"

definition duplicate_text :: string where
  "duplicate_text =
     ''6543 Segovia Rd'' @ [CHR 0x0A] @
     ''$3,250 2 Bed / 2 Bath Unit #A101 (8/15)'' @ [CHR 0x0A] @
     ''$3,250 2 Bed / 2 Bath Unit #A101 (8/15)''"



definition run_triples :: "(nat \<Rightarrow> nat) \<Rightarrow> string \<Rightarrow> string \<Rightarrow> (string \<times> string \<times> datetime) list" where
  "run_triples now path text =
     (case run now path text of Inl e \<Rightarrow> [] | Inr out \<Rightarrow> map listing_triple out)"



section \<open>Lemmas\<close>

subsection \<open>The matcher is sound\<close>

lemma strip_lit_Some:
  "strip_lit ic w s = Some s' \<Longrightarrow> \<exists>x. s = x @ s' \<and> list_all2 (chr_eq ic) w x"
proof (induction ic w s rule: strip_lit.induct)
  case (1 ic s)
  then show ?case by simp
next
  case (2 ic a as)
  then show ?case by simp
next
  case (3 ic a as x xs)
  show ?case
  proof (cases "chr_eq ic a x")
    case True
    with 3 obtain y where "xs = y @ s'" "list_all2 (chr_eq ic) as y" by auto
    with True show ?thesis by (intro exI [of _ "x # y"]) simp
  next
    case False
    with 3 show ?thesis by simp
  qed
qed

lemma sound_at_mono:
  assumes "sound_at ic G r s c k v" "\<And>w. lang ic r w \<Longrightarrow> lang ic r' w" "must r' \<subseteq> must r"
  shows "sound_at ic G r' s c k v"
proof -
  from assms(1) obtain w s' c' where 1: "s = w @ s'" "lang ic r w" "caps_ok ic G c'"
      "dom c \<subseteq> dom c'" "must r \<subseteq> dom c'" "k s' c' = Some v"
    unfolding sound_at_def by blast
  from 1(2) have "lang ic r' w" by (rule assms(2))
  moreover from 1(5) assms(3) have "must r' \<subseteq> dom c'" by blast
  ultimately show ?thesis using 1 unfolding sound_at_def by blast
qed

lemma rmatch_sound:
  "rmatch ic r s c k = Some v \<Longrightarrow> set (groups r) \<subseteq> G \<Longrightarrow> caps_ok ic G c \<Longrightarrow>
   sound_at ic G r s c k v"
proof (induction ic r s c k arbitrary: v rule: rmatch.induct)
  case (1 ic p s c k)
  then obtain x xs where "s = x # xs" "p x" "k xs c = Some v"
    by (auto split: list.splits if_splits)
  with 1 show ?case
    unfolding sound_at_def by (intro exI [of _ "[x]"] exI [of _ xs] exI [of _ c]) (simp add: lang_Cls)
next
  case (2 ic w s c k)
  then obtain s' where s': "strip_lit ic w s = Some s'" "k s' c = Some v"
    by (auto split: option.splits)
  from strip_lit_Some [OF s'(1)] obtain x where "s = x @ s'" "list_all2 (chr_eq ic) w x" by blast
  with 2 s' show ?case
    unfolding sound_at_def by (intro exI [of _ x] exI [of _ s'] exI [of _ c]) (simp add: lang_Lit)
next
  case (3 ic r1 r2 s c k)
  from 3 have g: "set (groups r1) \<subseteq> G" "set (groups r2) \<subseteq> G" by simp_all
  from 3 have "rmatch ic r1 s c (\<lambda>s' c'. rmatch ic r2 s' c' k) = Some v" by simp
  from "3.IH"(2) [OF this g(1) "3.prems"(3)]
  obtain w1 s1 c1 where 1: "s = w1 @ s1" "lang ic r1 w1" "caps_ok ic G c1" "dom c \<subseteq> dom c1"
      "must r1 \<subseteq> dom c1" "rmatch ic r2 s1 c1 k = Some v"
    unfolding sound_at_def by blast
  from "3.IH"(1) [OF 1(6) g(2) 1(3)]
  obtain w2 s2 c2 where 2: "s1 = w2 @ s2" "lang ic r2 w2" "caps_ok ic G c2" "dom c1 \<subseteq> dom c2"
      "must r2 \<subseteq> dom c2" "k s2 c2 = Some v"
    unfolding sound_at_def by blast
  from 1 2 have "s = (w1 @ w2) @ s2" "lang ic (Seq r1 r2) (w1 @ w2)" "dom c \<subseteq> dom c2"
    "must (Seq r1 r2) \<subseteq> dom c2"
    by (auto intro: lang_Seq)
  with 2 show ?case unfolding sound_at_def by blast
next
  case (4 ic r1 r2 s c k)
  from 4 have g: "set (groups r1) \<subseteq> G" "set (groups r2) \<subseteq> G" by simp_all
  show ?case
  proof (cases "rmatch ic r1 s c k")
    case None
    with 4 have "rmatch ic r2 s c k = Some v" by simp
    from "4.IH"(2) [OF None this g(2) "4.prems"(3)] show ?thesis
      by (rule sound_at_mono) (auto intro: lang_AltR)
  next
    case (Some a)
    with 4 have "rmatch ic r1 s c k = Some v" by simp
    from "4.IH"(1) [OF this g(1) "4.prems"(3)] show ?thesis
      by (rule sound_at_mono) (auto intro: lang_AltL)
  qed
next
  case (5 ic r s c k)
  from 5 have g: "set (groups r) \<subseteq> G" by simp
  show ?case
  proof (cases "rmatch ic r s c k")
    case None
    with 5 have "k s c = Some v" by simp
    with 5 show ?thesis
      unfolding sound_at_def by (intro exI [of _ "[]"] exI [of _ s] exI [of _ c]) (simp add: lang_OptN)
  next
    case (Some a)
    with 5 have "rmatch ic r s c k = Some v" by simp
    from "5.IH" [OF this g "5.prems"(3)] show ?thesis
      by (rule sound_at_mono) (auto intro: lang_OptS)
  qed
next
  case (6 ic r s c k)
  from 6 have g: "set (groups r) \<subseteq> G" "set (groups (Star r)) \<subseteq> G" by simp_all
  let ?K = "\<lambda>s' c'. if length s' < length s then rmatch ic (Star r) s' c' k else None"
  show ?case
  proof (cases "rmatch ic r s c ?K")
    case None
    with 6 have "k s c = Some v" by simp
    with 6 show ?thesis
      unfolding sound_at_def by (intro exI [of _ "[]"] exI [of _ s] exI [of _ c]) (simp add: lang_StarN)
  next
    case (Some a)
    with 6 have "rmatch ic r s c ?K = Some v" by simp
    from "6.IH"(2) [OF this g(1) "6.prems"(3)]
    obtain w1 s1 c1 where 1: "s = w1 @ s1" "lang ic r w1" "caps_ok ic G c1" "dom c \<subseteq> dom c1"
        "?K s1 c1 = Some v"
      unfolding sound_at_def by blast
    then have l: "length s1 < length s" and m: "rmatch ic (Star r) s1 c1 k = Some v"
      by (auto split: if_splits)
    from "6.IH"(1) [OF l m g(2) 1(3)]
    obtain w2 s2 c2 where 2: "s1 = w2 @ s2" "lang ic (Star r) w2" "caps_ok ic G c2" "dom c1 \<subseteq> dom c2"
        "k s2 c2 = Some v"
      unfolding sound_at_def by blast
    from 1 2 have "s = (w1 @ w2) @ s2" "lang ic (Star r) (w1 @ w2)" "dom c \<subseteq> dom c2"
      by (auto intro: lang_StarS)
    with 2 show ?thesis unfolding sound_at_def by (metis must.simps(6) empty_subsetI)
  qed
next
  case (7 ic n r s c k)
  from 7 have g: "set (groups r) \<subseteq> G" "(n, r) \<in> G" by simp_all
  from 7 have "rmatch ic r s c (\<lambda>s' c'. k s' (c'(n \<mapsto> take (length s - length s') s))) = Some v"
    by simp
  from "7.IH" [OF this g(1) "7.prems"(3)]
  obtain w s' c' where 1: "s = w @ s'" "lang ic r w" "caps_ok ic G c'" "dom c \<subseteq> dom c'"
      "must r \<subseteq> dom c'" "k s' (c'(n \<mapsto> take (length s - length s') s)) = Some v"
    unfolding sound_at_def by blast
  from 1(1) have t: "take (length s - length s') s = w" by simp
  from 1(3) 1(2) g(2) have "caps_ok ic G (c'(n \<mapsto> w))"
    unfolding caps_ok_def by auto
  moreover from 1 have "dom c \<subseteq> dom (c'(n \<mapsto> w))" "must (Grp n r) \<subseteq> dom (c'(n \<mapsto> w))" by auto
  ultimately show ?case
    using 1(1,2,6) t unfolding sound_at_def
    by (intro exI [of _ w] exI [of _ s'] exI [of _ "c'(n \<mapsto> w)"]) (simp add: lang_Grp)
qed

lemma lang_Nil_nullable: "lang ic r w \<Longrightarrow> w = [] \<Longrightarrow> nullable r"
  by (induction rule: lang.induct) auto

lemma match_at_sound:
  assumes "match_at ic r i s = Some m"
  shows "\<exists>w s'. s = w @ s' \<and> lang ic r w \<and> m_start m = i \<and> m_end m = i + length w \<and>
           caps_ok ic (set (groups r)) (m_groups m) \<and> must r \<subseteq> dom (m_groups m)"
proof -
  have "caps_ok ic (set (groups r)) Map.empty" by (simp add: caps_ok_def)
  with assms have "sound_at ic (set (groups r)) r s Map.empty
      (\<lambda>s' c. Some \<lparr>m_start = i, m_end = i + (length s - length s'), m_groups = c\<rparr>) m"
    unfolding match_at_def by (intro rmatch_sound) simp_all
  then obtain w s' c' where 1: "s = w @ s'" "lang ic r w" "caps_ok ic (set (groups r)) c'"
      "must r \<subseteq> dom c'" "m = \<lparr>m_start = i, m_end = i + (length s - length s'), m_groups = c'\<rparr>"
    unfolding sound_at_def by auto
  then show ?thesis by (intro exI [of _ w] exI [of _ s']) simp
qed

lemma search_from_sound:
  "search_from ic r i s = Some m \<Longrightarrow>
   \<exists>pre w post. s = pre @ w @ post \<and> lang ic r w \<and> m_start m = i + length pre \<and>
     m_end m = i + length pre + length w \<and>
     caps_ok ic (set (groups r)) (m_groups m) \<and> must r \<subseteq> dom (m_groups m)"
proof (induction ic r i s rule: search_from.induct)
  case (1 ic r i)
  from match_at_sound [of ic r i "[]" m] 1 show ?case by auto
next
  case (2 ic r i x xs)
  show ?case
  proof (cases "match_at ic r i (x # xs)")
    case None
    with 2 obtain pre w post where "xs = pre @ w @ post" "lang ic r w"
        "m_start m = Suc i + length pre" "m_end m = Suc i + length pre + length w"
        "caps_ok ic (set (groups r)) (m_groups m)" "must r \<subseteq> dom (m_groups m)"
      by auto
    then show ?thesis by (intro exI [of _ "x # pre"] exI [of _ w] exI [of _ post]) simp
  next
    case (Some a)
    with 2 have "match_at ic r i (x # xs) = Some m" by simp
    from match_at_sound [OF this] show ?thesis
      by (metis append_Nil add.right_neutral list.size(3))
  qed
qed

lemma re_search_sound:
  "re_search ic r s = Some m \<Longrightarrow>
   \<exists>pre w post. s = pre @ w @ post \<and> lang ic r w \<and> m_start m = length pre \<and>
     m_end m = length pre + length w \<and>
     caps_ok ic (set (groups r)) (m_groups m) \<and> must r \<subseteq> dom (m_groups m)"
  unfolding re_search_def by (drule search_from_sound) simp

lemma re_search_group:
  assumes "re_search ic r s = Some m" "n \<in> must r"
  shows "\<exists>b. (n, b) \<in> set (groups r) \<and> lang ic b (group m n)"
proof -
  from re_search_sound [OF assms(1)] have c: "caps_ok ic (set (groups r)) (m_groups m)"
    and d: "must r \<subseteq> dom (m_groups m)" by auto
  from d assms(2) obtain g where g: "m_groups m n = Some g" by auto
  with c obtain b where "(n, b) \<in> set (groups r)" "lang ic b g" unfolding caps_ok_def by blast
  with g show ?thesis by (auto simp: group_def)
qed

lemma re_search_advances:
  assumes "re_search ic r s = Some m" "\<not> nullable r"
  shows "0 < m_end m \<and> m_end m \<le> length s"
proof -
  from re_search_sound [OF assms(1)] obtain pre w post where
    1: "s = pre @ w @ post" "lang ic r w" "m_end m = length pre + length w" by blast
  from 1(2) assms(2) have "w \<noteq> []" using lang_Nil_nullable by blast
  with 1 show ?thesis by simp
qed

inductive_cases lang_Cls_cases: "lang ic (Cls p) w"

inductive_cases lang_Lit_cases: "lang ic (Lit a) w"

inductive_cases lang_Seq_cases: "lang ic (Seq r1 r2) w"

inductive_cases lang_Alt_cases: "lang ic (Alt r1 r2) w"

inductive_cases lang_Opt_cases: "lang ic (Opt r) w"

inductive_cases lang_Grp_cases: "lang ic (Grp n r) w"

lemma lang_ClsE: "lang ic (Cls p) w \<Longrightarrow> \<exists>x. w = [x] \<and> p x"
  by (erule lang_Cls_cases) simp

lemma lang_SeqE: "lang ic (Seq r1 r2) w \<Longrightarrow> \<exists>u v. w = u @ v \<and> lang ic r1 u \<and> lang ic r2 v"
  by (erule lang_Seq_cases) blast

lemma lang_OptE: "lang ic (Opt r) w \<Longrightarrow> w = [] \<or> lang ic r w"
  by (erule lang_Opt_cases) simp_all

lemma lang_GrpE: "lang ic (Grp n r) w \<Longrightarrow> lang ic r w"
  by (erule lang_Grp_cases)

lemma lang_Star_Cls: "lang ic r w \<Longrightarrow> r = Star (Cls p) \<Longrightarrow> list_all p w"
proof (induction rule: lang.induct)
  case (lang_StarS r u v)
  from lang_StarS(1,5) have "\<exists>x. u = [x] \<and> p x" by (auto dest: lang_ClsE)
  with lang_StarS show ?case by auto
qed auto

lemma list_all2_chr_eq_False: "list_all2 (chr_eq False) w x \<Longrightarrow> x = w"
  by (induction rule: list_all2_induct) (auto simp: chr_eq_def)

lemma lang_LitE: "lang False (Lit w) x \<Longrightarrow> x = w"
  by (erule lang_Lit_cases) (simp add: list_all2_chr_eq_False)

lemma lang_digits1: "lang ic digits1 w \<Longrightarrow> w \<noteq> [] \<and> list_all is_digit w"
  unfolding digits1_def Plus_def
  by (auto dest!: lang_SeqE lang_ClsE dest: lang_Star_Cls)


subsection \<open>The extractors never raise on what the patterns capture\<close>

lemma takeWhile_all: "list_all p s \<Longrightarrow> takeWhile p s = s"
  by (induction s) auto

lemma dropWhile_all: "list_all p s \<Longrightarrow> dropWhile p s = []"
  by (induction s) auto

lemma py_int_digits:
  "s \<noteq> [] \<Longrightarrow> list_all is_digit s \<Longrightarrow> py_int s = Inr (int (nat_of_digits s))"
  by (simp add: py_int_def)

lemma py_float_digits:
  "s \<noteq> [] \<Longrightarrow> list_all is_digit s \<Longrightarrow> py_float s = Inr (of_nat (nat_of_digits s))"
  by (simp add: py_float_def takeWhile_all dropWhile_all)

lemma not_digit_point: "\<not> is_digit CHR ''.''"
  by (simp add: is_digit_def)

lemma py_float_decimal:
  assumes "a \<noteq> []" "list_all is_digit a" "b \<noteq> []" "list_all is_digit b"
  shows "\<exists>v. py_float (a @ ''.'' @ b) = Inr v"
proof -
  from assms(2) have "takeWhile is_digit (a @ ''.'' @ b) = a" "dropWhile is_digit (a @ ''.'' @ b) = ''.'' @ b"
    by (simp_all add: takeWhile_append2 dropWhile_append2 list_all_iff not_digit_point)
  with assms show ?thesis by (simp add: py_float_def)
qed

lemma bed_group1:
  assumes "re_search False bed_pattern s = Some m"
  shows "group m 1 \<noteq> [] \<and> list_all is_digit (group m 1)"
proof -
  have "1 \<in> must bed_pattern" by (simp add: bed_pattern_def)
  from re_search_group [OF assms this] have "lang False digits1 (group m 1)"
    by (auto simp: bed_pattern_def digits1_def Plus_def)
  then show ?thesis by (rule lang_digits1)
qed

lemma bath_group1:
  assumes "re_search False bath_pattern s = Some m"
  shows "\<exists>v. py_float (group m 1) = Inr v"
proof -
  have "1 \<in> must bath_pattern" by (simp add: bath_pattern_def)
  from re_search_group [OF assms this]
  have "lang False (Seq digits1 (Opt (Seq (Lit ''.'') digits1))) (group m 1)"
    by (auto simp: bath_pattern_def digits1_def Plus_def)
  then obtain a b where ab0: "group m 1 = a @ b" "lang False digits1 a"
      "lang False (Opt (Seq (Lit ''.'') digits1)) b"
    using lang_SeqE by blast
  from ab0(3) have "b = [] \<or> lang False (Seq (Lit ''.'') digits1) b" by (rule lang_OptE)
  note ab = ab0(1,2) this
  from ab(2) have a: "a \<noteq> []" "list_all is_digit a" by (auto dest: lang_digits1)
  from ab(3) show ?thesis
  proof
    assume "b = []"
    with ab a show ?thesis by (simp add: py_float_digits)
  next
    assume "lang False (Seq (Lit ''.'') digits1) b"
    then obtain p d where "b = p @ d" "lang False (Lit ''.'') p" "lang False digits1 d"
      using lang_SeqE by blast
    then have "b = ''.'' @ d" "d \<noteq> []" "list_all is_digit d"
      using lang_LitE [of "''.''" p] lang_digits1 [of False d] by simp_all
    with ab a py_float_decimal [of a d] show ?thesis by simp
  qed
qed

lemma parking_group1:
  assumes "re_search False parking_cost_pattern s = Some m"
  shows "group m 1 \<noteq> [] \<and> list_all is_digit (group m 1)"
proof -
  have "1 \<in> must parking_cost_pattern" by (simp add: parking_cost_pattern_def)
  from re_search_group [OF assms this] have "lang False digits1 (group m 1)"
    by (auto simp: parking_cost_pattern_def digits1_def Plus_def)
  then show ?thesis by (rule lang_digits1)
qed

lemma parse_room_type_total: "\<exists>room. parse_room_type s = Inr room"
proof -
  have 1: "\<exists>v. py_int (group m 1) = Inr v" if "re_search False bed_pattern s = Some m" for m
    using bed_group1 [OF that] by (simp add: py_int_digits)
  have 2: "\<exists>v. py_float (group m 1) = Inr v" if "re_search False bath_pattern s = Some m" for m
    using bath_group1 [OF that] .
  have b: "\<exists>beds. (case re_search False bed_pattern s of
              Some m \<Rightarrow> (case py_int (group m 1) of Inl e \<Rightarrow> Inl e | Inr v \<Rightarrow> Inr (Some v))
            | None \<Rightarrow> Inr None) = Inr beds"
    using 1 by (cases "re_search False bed_pattern s") auto
  have c: "\<exists>baths. (case re_search False bath_pattern s of
              Some m \<Rightarrow> (case py_float (group m 1) of Inl e \<Rightarrow> Inl e | Inr v \<Rightarrow> Inr (Some v))
            | None \<Rightarrow> Inr None) = Inr baths"
    using 2 by (cases "re_search False bath_pattern s") auto
  from b c show ?thesis
    unfolding parse_room_type_def Let_def by (elim exE) simp
qed

lemma extract_features_total: "\<exists>ft. extract_features d = Inr ft"
proof (cases "re_search False parking_cost_pattern d")
  case None
  then show ?thesis by (simp add: extract_features_def Let_def)
next
  case (Some m)
  from parking_group1 [OF Some] have "\<exists>v. py_float (group m 1) = Inr v"
    by (simp add: py_float_digits)
  with Some show ?thesis by (auto simp: extract_features_def Let_def)
qed







lemma unit_pattern_not_nullable: "\<not> nullable unit_pattern"
  by (simp add: unit_pattern_def Plus_def digits_1_2_def)

lemma unit_match_advances:
  assumes "re_search False unit_pattern s = Some m"
  shows "length (drop (m_end m) s) < length s"
proof -
  from re_search_advances [OF assms unit_pattern_not_nullable]
  have "0 < m_end m" "m_end m \<le> length s" by simp_all
  then show ?thesis by simp
qed



subsection \<open>The price pattern, computed\<close>








subsection \<open>The assembler and the walk\<close>

lemma append_listings_eq:
  "append_listings now self line a p room ft us =
     self\<lparr>listings := listings self @
       map (\<lambda>(i, u). make_listing (now i) line a p room ft u) (enumerate (length (listings self)) us)\<rparr>"
  by (induction us arbitrary: self) simp_all

lemma case_two:
  "(case xs of [] \<Rightarrow> g | [a] \<Rightarrow> g | [a, b] \<Rightarrow> f a b | a # b # c # ds \<Rightarrow> g) =
     (if length xs = 2 then f (xs ! 0) (xs ! 1) else g)"
  by (cases xs; simp split: list.split)

lemma length_two: "length xs = 2 \<Longrightarrow> xs = [xs ! 0, xs ! 1]"
  by (auto simp: length_Suc_conv numeral_2_eq_2)

lemma parse_listing_line_fields:
  "parse_listing_line now self line a =
     (case line_fields self line of
        Inl e \<Rightarrow> Inl e
      | Inr None \<Rightarrow> Inr self
      | Inr (Some (price, room, ft, units)) \<Rightarrow> Inr (append_listings now self line a price room ft units))"
proof (cases "length (py_split1 CHR '' '' line) = 2")
  case False
  then show ?thesis
    unfolding parse_listing_line_def line_fields_def case_two by simp
next
  case True
  define tok where "tok = py_split1 CHR '' '' line ! 0"
  define rest where "rest = py_split1 CHR '' '' line ! 1"
  show ?thesis
  proof (cases "parse_price tok")
    case (Inl e)
    with True show ?thesis
      unfolding parse_listing_line_def line_fields_def case_two tok_def by simp
  next
    case (Inr price)
    show ?thesis
    proof (cases "re_search False unit_marker_pattern rest")
      case None
      with True Inr show ?thesis
        unfolding parse_listing_line_def line_fields_def case_two tok_def rest_def by simp
    next
      case (Some um)
      obtain room where room: "parse_room_type (py_strip (take (m_start um) rest)) = Inr room"
        using parse_room_type_total by blast
      obtain ft where ft: "extract_features (line @ '' '' @ py_strip (drop (m_end um) rest)) = Inr ft"
        using extract_features_total by blast
      from True Inr Some room ft show ?thesis
        unfolding parse_listing_line_def line_fields_def case_two tok_def rest_def Let_def by simp
    qed
  qed
qed

lemma unit_entry_year:
  assumes "current_year p1 = current_year p2"
  shows "unit_entry p1 u d = unit_entry p2 u d"
  unfolding unit_entry_def assms ..

lemma units_loop_year:
  "current_year p1 = current_year p2 \<Longrightarrow> units_loop p1 ms = units_loop p2 ms"
proof (induction ms)
  case Nil
  then show ?case by simp
next
  case (Cons x ms)
  obtain u d where x: "x = (u, d)" by (cases x)
  from Cons show ?case unfolding x units_loop.simps by (simp only: unit_entry_year [of p1 p2])
qed

lemma parse_unit_numbers_year:
  "current_year p1 = current_year p2 \<Longrightarrow> parse_unit_numbers p1 = parse_unit_numbers p2"
  by (rule ext) (simp add: parse_unit_numbers_def units_loop_year [of p1 p2])

lemma line_fields_year:
  "current_year p1 = current_year p2 \<Longrightarrow> line_fields p1 line = line_fields p2 line"
  unfolding line_fields_def by (simp only: parse_unit_numbers_year [of p1 p2])

lemma line_pairs_year:
  "current_year p1 = current_year p2 \<Longrightarrow> line_pairs p1 line = line_pairs p2 line"
  unfolding line_pairs_def by (simp only: parse_unit_numbers_year [of p1 p2])

lemma line_fields_cases:
  "line_fields self line = Inl ValueError \<and> (\<exists>tok rest. py_split1 CHR '' '' line = [tok, rest] \<and> parse_price tok = Inl ValueError)
   \<or> line_fields self line = Inr None \<and> line_pairs self line = []
   \<or> (\<exists>price room ft. line_fields self line = Inr (Some (price, room, ft, line_pairs self line)))"
proof (cases "length (py_split1 CHR '' '' line) = 2")
  case False
  then show ?thesis
    unfolding line_pairs_def line_fields_def case_two by simp
next
  case True
  define tok where "tok = py_split1 CHR '' '' line ! 0"
  define rest where "rest = py_split1 CHR '' '' line ! 1"
  from True have sp: "py_split1 CHR '' '' line = [tok, rest]"
    unfolding tok_def rest_def by (rule length_two)
  show ?thesis
  proof (cases "parse_price tok")
    case (Inl e)
    then have "parse_price tok = Inl ValueError" by (cases e) simp
    with sp show ?thesis
      unfolding line_fields_def by simp
  next
    case (Inr price)
    show ?thesis
    proof (cases "re_search False unit_marker_pattern rest")
      case None
      with sp Inr show ?thesis
        unfolding line_pairs_def line_fields_def by simp
    next
      case (Some um)
      obtain room where room: "parse_room_type (py_strip (take (m_start um) rest)) = Inr room"
        using parse_room_type_total by blast
      obtain ft where ft: "extract_features (line @ '' '' @ py_strip (drop (m_end um) rest)) = Inr ft"
        using extract_features_total by blast
      from sp Inr Some room ft show ?thesis
        unfolding line_pairs_def line_fields_def Let_def by simp
    qed
  qed
qed

lemma erase_clock_make_listing:
  "erase_clock (make_listing t line a price room ft u) = make_listing 0 line a price room ft u"
  by (simp add: erase_clock_def make_listing_def)

lemma map_erase_clock_enumerate:
  "map erase_clock (map (\<lambda>(i, u). make_listing (now i) line a price room ft u) (enumerate n us)) =
     map (make_listing 0 line a price room ft) us"
  by (induction us arbitrary: n) (simp_all add: erase_clock_make_listing)

lemma parse_listing_line_Inr:
  assumes "parse_listing_line now self line a = Inr self1"
  shows "\<exists>new. self1 = self\<lparr>listings := listings self @ new\<rparr> \<and>
           map erase_clock new = line_records self (a, line) \<and> \<not> isl (line_fields self line)"
proof (cases "line_fields self line")
  case (Inl e)
  with assms show ?thesis by (simp add: parse_listing_line_fields)
next
  case (Inr plan)
  show ?thesis
  proof (cases plan)
    case None
    with Inr assms have "self1 = self\<lparr>listings := listings self @ []\<rparr>"
      by (simp add: parse_listing_line_fields)
    moreover from None Inr have "map erase_clock [] = line_records self (a, line)"
      by (simp add: line_records_def)
    ultimately show ?thesis using Inr by (intro exI [of _ "[]"]) simp
  next
    case (Some q)
    obtain price room ft units where q: "q = (price, room, ft, units)" by (cases q)
    let ?new = "map (\<lambda>(i, u). make_listing (now i) line a price room ft u)
        (enumerate (length (listings self)) units)"
    from Some q Inr assms have "self1 = self\<lparr>listings := listings self @ ?new\<rparr>"
      by (simp add: parse_listing_line_fields append_listings_eq)
    moreover from Some q Inr have "map erase_clock ?new = line_records self (a, line)"
      by (simp only: map_erase_clock_enumerate line_records_def) simp
    ultimately show ?thesis using Inr by (intro exI [of _ ?new]) simp
  qed
qed


lemma line_records_year:
  "current_year p1 = current_year p2 \<Longrightarrow> line_records p1 = line_records p2"
  by (rule ext) (simp add: line_records_def line_fields_year [of p1 p2])

lemma lines_ok_year:
  "current_year p1 = current_year p2 \<Longrightarrow> lines_ok p1 = lines_ok p2"
  by (rule ext) (simp add: lines_ok_def line_fields_year [of p1 p2])

lemma walk_Inr:
  "walk now self cur ls = Inr self' \<Longrightarrow>
   \<exists>new. self' = self\<lparr>listings := listings self @ new\<rparr> \<and>
     map erase_clock new = concat (map (line_records self) (listing_lines cur ls)) \<and>
     lines_ok self (listing_lines cur ls)"
proof (induction ls arbitrary: self cur)
  case Nil
  then show ?case by (intro exI [of _ "[]"]) (simp add: lines_ok_def)
next
  case (Cons l ls)
  define line where "line = py_strip l"
  show ?case
  proof (cases "re_search True address_pattern line")
    case (Some m)
    with Cons.prems have "walk now self (Some (group m 1)) ls = Inr self'"
      by (simp add: line_def)
    from Cons.IH [OF this] Some show ?thesis by (simp add: line_def)
  next
    case None
    show ?thesis
    proof (cases cur)
      case cn: None
      with None Cons.prems have "walk now self cur ls = Inr self'" by (simp add: line_def)
      from Cons.IH [OF this] None cn show ?thesis by (simp add: line_def)
    next
      case (Some a)
      show ?thesis
      proof (cases "py_startswith line ''$'' \<and> a \<noteq> []")
        case False
        with None Some Cons.prems have "walk now self cur ls = Inr self'"
          by (auto simp: line_def)
        from Cons.IH [OF this] None Some False show ?thesis by (auto simp: line_def)
      next
        case True
        with None Some Cons.prems obtain self1 where
          1: "parse_listing_line now self line a = Inr self1" and
          2: "walk now self1 cur ls = Inr self'"
          by (auto simp: line_def split: sum.splits)
        from parse_listing_line_Inr [OF 1] obtain new1 where
          n1: "self1 = self\<lparr>listings := listings self @ new1\<rparr>"
            "map erase_clock new1 = line_records self (a, line)"
            "\<not> isl (line_fields self line)" by blast
        from Cons.IH [OF 2] obtain new2 where
          n2: "self' = self1\<lparr>listings := listings self1 @ new2\<rparr>"
            "map erase_clock new2 = concat (map (line_records self1) (listing_lines cur ls))"
            "lines_ok self1 (listing_lines cur ls)" by blast
        from n1(1) have y: "current_year self1 = current_year self" by simp
        have ll: "listing_lines cur (l # ls) = (a, line) # listing_lines cur ls"
          using None Some True by (simp add: line_def)
        from n1 n2 have "self' = self\<lparr>listings := listings self @ (new1 @ new2)\<rparr>" by simp
        moreover from n1(2) n2(2) have "map erase_clock (new1 @ new2) =
            concat (map (line_records self) (listing_lines cur (l # ls)))"
          unfolding ll line_records_year [OF y] by simp
        moreover from n1(3) n2(3) have "lines_ok self (listing_lines cur (l # ls))"
          unfolding ll lines_ok_year [OF y] by (simp add: lines_ok_def)
        ultimately show ?thesis by blast
      qed
    qed
  qed
qed


subsection \<open>Evaluation of the examples\<close>

lemmas eval_chars = is_digit_def is_space_def is_word_def is_any_def is_digit_or_comma_def is_s_def
  chr_eq_def ascii_lower_def py_lower_char_def char_of_def bit_Suc_0_iff

lemmas eval_patterns = digits1_def digits_1_2_def digits_4_5_def unit_pattern_def price_pattern_def
  bed_pattern_def bath_pattern_def parking_cost_pattern_def internet_pattern_def
  water_trash_pattern_def washer_dryer_pattern_def gas_pattern_def street_names_def
  street_suffixes_def address_pattern_def unit_marker_pattern_def Plus_def

lemmas eval_python = py_lower_def py_strip_def py_split_def py_split1_def py_replace_char_def
  py_startswith_def digit_val_def nat_of_digits_def py_int_def py_float_def is_leap_def
  days_in_month_def py_datetime_def match_at_def re_search_def group_def re_findall2.simps

lemmas eval_parser = init_def month_day_def unit_entry_def parse_unit_numbers_def parse_price_def
  parse_room_type_def found_def amenity_tags_def extract_features_def make_listing_id_def
  make_listing_def parse_listing_line_def parse_all_def run_def Let_def

lemmas eval_all = eval_chars eval_patterns eval_python eval_parser

lemma example_line_records:
  "parse_listing_line now self ''$3,250 2 Bed / 2 Bath Unit #A101 (8/15)'' ''6543 Segovia Rd'' =
     Inr (self\<lparr>listings := listings self @ [(example_record (now (length (listings self))))
       \<lparr>available_date := \<lparr>dt_year = current_year self, dt_month = 8, dt_day = 15\<rparr>\<rparr>]\<rparr>)"
  if "1 \<le> current_year self" "current_year self \<le> 9999"
  using that by (simp add: eval_all example_record_def)

lemma example_address_line:
  "re_search True address_pattern ''6543 Segovia Rd'' =
     Some \<lparr>m_start = 0, m_end = 15, m_groups = [1 \<mapsto> ''6543 Segovia Rd'']\<rparr>"
  by (simp add: eval_chars eval_patterns eval_python)

lemma example_listing_line_no_address:
  "re_search True address_pattern ''$3,250 2 Bed / 2 Bath Unit #A101 (8/15)'' = None"
  by (simp add: eval_chars eval_patterns eval_python)

lemma example_lines:
  "py_split CHR 0x0A example_text = [''6543 Segovia Rd'', ''$3,250 2 Bed / 2 Bath Unit #A101 (8/15)'']"
  "py_strip ''6543 Segovia Rd'' = ''6543 Segovia Rd''"
  "py_strip ''$3,250 2 Bed / 2 Bath Unit #A101 (8/15)'' = ''$3,250 2 Bed / 2 Bath Unit #A101 (8/15)''"
  by (simp_all add: example_text_def py_split_def py_strip_def is_space_def)

lemma example_run: "run now path example_text = Inr [example_record (now 0)]"
proof -
  have "parse_listing_line now (init path) ''$3,250 2 Bed / 2 Bath Unit #A101 (8/15)''
      ''6543 Segovia Rd'' = Inr ((init path)\<lparr>listings := [example_record (now 0)]\<rparr>)"
    using example_line_records [of "init path" now] by (simp add: init_def example_record_def)
  then show ?thesis
    by (simp add: run_def parse_all_def example_lines example_address_line
        example_listing_line_no_address group_def py_startswith_def)
qed



lemma py_split1_no_sep: "d \<notin> set s \<Longrightarrow> py_split1 d s = [s]"
proof -
  assume "d \<notin> set s"
  then have e: "dropWhile (\<lambda>c. c \<noteq> d) s = []" by (induction s) auto
  show ?thesis unfolding py_split1_def e by simp
qed

lemma marker_less_line:
  assumes "py_split1 CHR '' '' line = [tok, rest]"
      and "re_search False unit_marker_pattern rest = None"
  shows "parse_listing_line now self line a =
           (case parse_price tok of Inl e \<Rightarrow> Inl e | Inr price \<Rightarrow> Inr self)"
  using assms unfolding parse_listing_line_def by (simp split: sum.split)

subsection \<open>Lemmas for the single claims\<close>









lemma amenity_tags_table:
  "amenity_tags d = map snd (filter (\<lambda>pt. found True (fst pt) d) amenity_table)"
  by (simp add: amenity_tags_def amenity_table_def)

lemma py_join_Cons_nonempty: "x \<noteq> [] \<Longrightarrow> py_join sep (x # xs) \<noteq> []"
  by (cases xs) simp_all

lemma py_join_nonempty:
  assumes "xs \<noteq> []" "\<forall>x\<in>set xs. x \<noteq> []"
  shows "py_join sep xs \<noteq> []"
  using assms by (cases xs) (simp_all add: py_join_Cons_nonempty)

lemma amenity_tags_nonempty: "\<forall>t\<in>set (amenity_tags d). t \<noteq> []"
  unfolding amenity_tags_table amenity_table_def by auto

lemma extract_features_amenities:
  "extract_features d = Inr ft \<Longrightarrow>
   ft_amenities ft = (if amenity_tags d \<noteq> [] then py_join '', '' (amenity_tags d) else ''None listed'')"
  unfolding extract_features_def Let_def by (auto split: sum.splits)

lemma plain_description_found:
  "found True internet_pattern plain_description = False"
  "found True water_trash_pattern plain_description = False"
  "found True washer_dryer_pattern plain_description = False"
  "found True gas_pattern plain_description = False"
  by (simp_all add: plain_description_def found_def eval_chars eval_patterns eval_python)

lemma amenity_description_found:
  "found True internet_pattern amenity_description = True"
  "found True water_trash_pattern amenity_description = False"
  "found True washer_dryer_pattern amenity_description = True"
  "found True gas_pattern amenity_description = False"
  by (simp_all add: amenity_description_def found_def eval_chars eval_patterns eval_python)

lemma run_Inr:
  assumes "run now path text = Inr out"
  shows "map erase_clock out =
           concat (map (line_records (init path)) (listing_lines None (py_split CHR 0x0A text))) \<and>
         lines_ok (init path) (listing_lines None (py_split CHR 0x0A text))"
proof -
  from assms obtain self' where w: "walk now (init path) None (py_split CHR 0x0A text) = Inr self'"
    and o: "out = listings self'"
    by (auto simp: run_def parse_all_def split: sum.splits)
  from walk_Inr [OF w] o show ?thesis by (auto simp: init_def)
qed








lemma duplicate_lines:
  "py_split CHR 0x0A duplicate_text =
     [''6543 Segovia Rd'', ''$3,250 2 Bed / 2 Bath Unit #A101 (8/15)'',
      ''$3,250 2 Bed / 2 Bath Unit #A101 (8/15)'']"
  by (simp add: duplicate_text_def py_split_def)

lemma duplicate_run:
  "run now path duplicate_text = Inr [example_record (now 0), example_record (now 1)]"
proof -
  have 1: "parse_listing_line now (init path) ''$3,250 2 Bed / 2 Bath Unit #A101 (8/15)''
      ''6543 Segovia Rd'' = Inr ((init path)\<lparr>listings := [example_record (now 0)]\<rparr>)"
    using example_line_records [of "init path" now] by (simp add: init_def example_record_def)
  have 2: "parse_listing_line now ((init path)\<lparr>listings := [example_record (now 0)]\<rparr>)
      ''$3,250 2 Bed / 2 Bath Unit #A101 (8/15)'' ''6543 Segovia Rd'' =
      Inr ((init path)\<lparr>listings := [example_record (now 0), example_record (now 1)]\<rparr>)"
    using example_line_records [of "(init path)\<lparr>listings := [example_record (now 0)]\<rparr>" now]
    by (simp add: init_def example_record_def)
  show ?thesis
    by (simp add: run_def parse_all_def duplicate_lines example_lines example_address_line
        example_listing_line_no_address group_def py_startswith_def 1 2)
qed

lemma listing_triple_erase_clock: "listing_triple (erase_clock r) = listing_triple r"
  by (simp add: listing_triple_def erase_clock_def)

lemma line_records_triples:
  assumes "\<not> isl (line_fields self (snd al))"
  shows "map listing_triple (line_records self al) = line_triples self al"
proof -
  from line_fields_cases [of self "snd al"] assms
  consider "line_fields self (snd al) = Inr None" "line_pairs self (snd al) = []"
    | price room ft where "line_fields self (snd al) = Inr (Some (price, room, ft, line_pairs self (snd al)))"
    by auto
  then show ?thesis
  proof cases
    case 1
    then show ?thesis by (simp add: line_records_def line_triples_def)
  next
    case 2
    then show ?thesis
      by (simp add: line_records_def line_triples_def listing_triple_def make_listing_def comp_def)
  qed
qed

lemma lines_ok_triples:
  "lines_ok self als \<Longrightarrow>
   concat (map (\<lambda>al. map listing_triple (line_records self al)) als) = concat (map (line_triples self) als)"
  by (induction als) (simp_all add: lines_ok_def line_records_triples)

lemma parse_all_appends:
  assumes "parse_all now self text = Inr (self', out)"
  shows "\<exists>new. out = listings self @ new \<and> self' = self\<lparr>listings := out\<rparr>"
proof -
  from assms have w: "walk now self None (py_split CHR 0x0A text) = Inr self'" and o: "out = listings self'"
    by (auto simp: parse_all_def split: sum.splits)
  from walk_Inr [OF w] obtain new where "self' = self\<lparr>listings := listings self @ new\<rparr>" by blast
  with o show ?thesis by (intro exI [of _ new]) simp
qed

lemma second_parse_all_on_one_object:
  "parse_all now (init path) example_text =
     Inr ((init path)\<lparr>listings := [example_record (now 0)]\<rparr>, [example_record (now 0)]) \<and>
   parse_all now ((init path)\<lparr>listings := [example_record (now 0)]\<rparr>) example_text =
     Inr ((init path)\<lparr>listings := [example_record (now 0), example_record (now 1)]\<rparr>,
          [example_record (now 0), example_record (now 1)])"
proof -
  have 1: "parse_listing_line now (init path) ''$3,250 2 Bed / 2 Bath Unit #A101 (8/15)''
      ''6543 Segovia Rd'' = Inr ((init path)\<lparr>listings := [example_record (now 0)]\<rparr>)"
    using example_line_records [of "init path" now] by (simp add: init_def example_record_def)
  have 2: "parse_listing_line now ((init path)\<lparr>listings := [example_record (now 0)]\<rparr>)
      ''$3,250 2 Bed / 2 Bath Unit #A101 (8/15)'' ''6543 Segovia Rd'' =
      Inr ((init path)\<lparr>listings := [example_record (now 0), example_record (now 1)]\<rparr>)"
    using example_line_records [of "(init path)\<lparr>listings := [example_record (now 0)]\<rparr>" now]
    by (simp add: init_def example_record_def)
  show ?thesis
    by (simp add: parse_all_def example_lines example_address_line
        example_listing_line_no_address group_def py_startswith_def 1 2)
qed

section \<open>The claims\<close>

subsection \<open>C1: one record per unit/date pair of a listing line\<close>




subsection \<open>C2: the worked example of the specification\<close>

text \<open>
  Claim C2. For the text made of the address line \<^verbatim>\<open>6543 Segovia Rd\<close> and the listing
  line \<^verbatim>\<open>$3,250 2 Bed / 2 Bath Unit #A101 (8/15)\<close>, a new parser returns exactly one
  record, \<open>example_record\<close>: its address is \<^verbatim>\<open>6543 Segovia Rd, Isla Vista, CA 93117\<close>,
  its price 3250, its bedrooms and bathrooms 2, its unit number \<^verbatim>\<open>A101\<close> and its date
  15 August 2026. This holds whatever the clock shows and whatever the path of the PDF.
\<close>

theorem segovia_example: "run now path example_text = Inr [example_record (now 0)]"
  by (rule example_run)

subsection \<open>C3: listing ids are reproducible\<close>



subsection \<open>C4: no record without an address\<close>

text \<open>
  Claim C4. While no address line has been seen, the walk ignores every line: if no
  line of \<open>pre\<close> holds a recognizable address, walking \<open>pre\<close> followed by \<open>rest\<close> from
  the state "no address" is walking \<open>rest\<close> alone, and walking \<open>pre\<close> alone leaves the
  parser as it was. So lines that begin with a currency symbol before the first
  address line add no record (and raise nothing).
\<close>

theorem lines_before_first_address_ignored:
  assumes "\<forall>l\<in>set pre. re_search True address_pattern (py_strip l) = None"
  shows "walk now self None (pre @ rest) = walk now self None rest \<and>
         walk now self None pre = Inr self"
proof -
  from assms have "walk now self None (pre @ ls) = walk now self None ls" for ls
    by (induction pre) (simp_all add: Let_def)
  from this [of rest] this [of "[]"] show ?thesis by simp
qed

text \<open>
  Claim C4 at a listing line that comes before the address line.
\<close>

theorem lines_before_first_address_ignored_witness:
  "re_search True address_pattern (py_strip ''$3,250 2 Bed / 2 Bath Unit #A101 (8/15)'') = None \<and>
   walk id (init []) None ([''$3,250 2 Bed / 2 Bath Unit #A101 (8/15)''] @ [''6543 Segovia Rd'']) =
     walk id (init []) None [''6543 Segovia Rd''] \<and>
   walk id (init []) None [''$3,250 2 Bed / 2 Bath Unit #A101 (8/15)''] = Inr (init [])"
proof -
  have h0: "re_search True address_pattern (py_strip ''$3,250 2 Bed / 2 Bath Unit #A101 (8/15)'') = None"
    by (simp add: example_lines example_listing_line_no_address)
  then have h: "\<forall>l\<in>set [''$3,250 2 Bed / 2 Bath Unit #A101 (8/15)''].
      re_search True address_pattern (py_strip l) = None"
    by simp
  from h0 lines_before_first_address_ignored [OF h, of id "init []" "[''6543 Segovia Rd'']"]
  show ?thesis by (intro conjI) simp_all
qed

subsection \<open>C5: the price extractor\<close>




subsection \<open>C6: a listing line without a unit marker\<close>

text \<open>
  Claim C6 says that a listing line without a \<^verbatim>\<open>Unit(s) #\<close> marker is skipped and raises
  nothing. \<^verbatim>\<open>_parse_listing_line\<close> calls \<^verbatim>\<open>parse_price\<close> on the first token before it
  looks for the marker, and on a token whose first run of digits and commas holds
  commas only, \<^verbatim>\<open>float('')\<close> raises ValueError. The line \<^verbatim>\<open>$, x\<close> has no marker; the
  assembler raises on it, for every parser, clock and address, and a walk over a
  text that holds this line under an address ends with that exception: the listing
  line after it is never read. A line without a marker whose price token holds a
  digit, such as \<^verbatim>\<open>$100 x\<close>, is skipped as the claim says.
\<close>

theorem marker_less_line_raises:
  "py_split1 CHR '' '' ''$, x'' = [''$,'', ''x''] \<and>
   re_search False unit_marker_pattern ''x'' = None \<and>
   parse_listing_line now self ''$, x'' a = Inl ValueError \<and>
   run now path comma_price_text = Inl ValueError \<and>
   parse_listing_line now self ''$100 x'' a = Inr self"
proof -
  have 8: "py_split1 CHR '' '' ''$100 x'' = [''$100'', ''x'']" by (simp add: py_split1_def)
  have 9: "parse_price ''$100'' = Inr (Some 100)" by (simp add: eval_all)
  have 1: "py_split1 CHR '' '' ''$, x'' = [''$,'', ''x'']" by (simp add: py_split1_def)
  have 2: "re_search False unit_marker_pattern ''x'' = None"
    by (simp add: eval_chars eval_patterns eval_python)
  have 3: "parse_price ''$,'' = Inl ValueError" by (simp add: eval_all)
  have 4: "parse_listing_line now' self' ''$, x'' a' = Inl ValueError" for now' self' a'
    using marker_less_line [OF 1 2] 3 by simp
  have 5: "py_split CHR 0x0A comma_price_text =
      [''6543 Segovia Rd'', ''$, x'', ''$3,250 2 Bed / 2 Bath Unit #A101 (8/15)'']"
    by (simp add: comma_price_text_def py_split_def)
  have 6: "py_strip ''$, x'' = ''$, x''" by (simp add: py_strip_def is_space_def)
  have 7: "re_search True address_pattern ''$, x'' = None"
    by (simp add: eval_chars eval_patterns eval_python)
  have "run now path comma_price_text = Inl ValueError"
    by (simp add: run_def parse_all_def 5 6 7 4 example_lines example_address_line
        group_def py_startswith_def)
  moreover have "parse_listing_line now self ''$100 x'' a = Inr self"
    using marker_less_line [OF 8 2] 9 by simp
  ultimately show ?thesis using 1 2 4 by simp
qed

subsection \<open>C7: a pair with an invalid date is dropped alone\<close>



subsection \<open>C8: one record per occurrence of a pair\<close>

text \<open>
  Claim C8 as the specification states it: no two records of the output share the
  triple (address, unit number, available date). The parser has no step that removes
  duplicates: a text that lists \<^verbatim>\<open>$3,250 2 Bed / 2 Bath Unit #A101 (8/15)\<close> twice under
  \<^verbatim>\<open>6543 Segovia Rd\<close> yields two records with the same triple.
\<close>

theorem one_record_per_distinct_triple_counterexample:
  "\<not> distinct (run_triples id [] duplicate_text)"
  by (simp add: run_triples_def duplicate_run listing_triple_def example_record_def)

text \<open>
  Claim C8, amended. When a run returns, its records are, in the order of the text,
  one for each occurrence of a unit/date pair with a valid date on a listing line under
  a known address: the triples of the output are the triples of the listing lines
  (\<open>listing_lines\<close>: the lines the walk hands to the assembler, each with its address),
  line after line, a triple that occurs twice in the text being returned twice.
\<close>

theorem one_record_per_pair_occurrence:
  assumes "run now path text = Inr out"
  shows "map listing_triple out =
           concat (map (line_triples (init path)) (listing_lines None (py_split CHR 0x0A text)))"
proof -
  from run_Inr [OF assms] have
    e: "map erase_clock out =
         concat (map (line_records (init path)) (listing_lines None (py_split CHR 0x0A text)))" and
    ok: "lines_ok (init path) (listing_lines None (py_split CHR 0x0A text))" by simp_all
  have "map listing_triple out = map listing_triple (map erase_clock out)"
    by (simp add: listing_triple_erase_clock comp_def)
  also have "\<dots> = concat (map (\<lambda>al. map listing_triple (line_records (init path) al))
      (listing_lines None (py_split CHR 0x0A text)))"
    unfolding e by (simp add: map_concat comp_def)
  also have "\<dots> = concat (map (line_triples (init path)) (listing_lines None (py_split CHR 0x0A text)))"
    using ok by (rule lines_ok_triples)
  finally show ?thesis .
qed

text \<open>
  Claim C8, the amended statement at the text with the repeated line.
\<close>

theorem one_record_per_pair_occurrence_witness:
  "run id [] duplicate_text = Inr [example_record 0, example_record 1] \<and>
   listing_lines None (py_split CHR 0x0A duplicate_text) =
     [(''6543 Segovia Rd'', ''$3,250 2 Bed / 2 Bath Unit #A101 (8/15)''),
      (''6543 Segovia Rd'', ''$3,250 2 Bed / 2 Bath Unit #A101 (8/15)'')] \<and>
   map listing_triple [example_record 0, example_record 1] =
     concat (map (line_triples (init []))
       [(''6543 Segovia Rd'', ''$3,250 2 Bed / 2 Bath Unit #A101 (8/15)''),
        (''6543 Segovia Rd'', ''$3,250 2 Bed / 2 Bath Unit #A101 (8/15)'')])"
proof -
  have h: "run id [] duplicate_text = Inr [example_record 0, example_record 1]"
    using duplicate_run [of id "[]"] by simp
  have l: "listing_lines None (py_split CHR 0x0A duplicate_text) =
     [(''6543 Segovia Rd'', ''$3,250 2 Bed / 2 Bath Unit #A101 (8/15)''),
      (''6543 Segovia Rd'', ''$3,250 2 Bed / 2 Bath Unit #A101 (8/15)'')]"
    by (simp add: duplicate_lines example_lines example_address_line
        example_listing_line_no_address group_def py_startswith_def Let_def)
  from one_record_per_pair_occurrence [OF h] h l show ?thesis by simp
qed

subsection \<open>C9: the amenities value\<close>

text \<open>
  Claim C9. The feature extractor always returns, and its amenities value is never
  the empty string. When none of the four amenity patterns of \<open>amenity_table\<close> is found
  in the text, the value is the literal \<^verbatim>\<open>None listed\<close>; when one or more is found, it is
  the tags of the patterns found, in the order of the table, joined with a comma and a
  blank.
\<close>

theorem amenities_none_listed_or_joined_tags:
  "\<exists>ft. extract_features d = Inr ft \<and>
     ft_amenities ft \<noteq> [] \<and>
     ((\<forall>pt\<in>set amenity_table. \<not> found True (fst pt) d) \<longrightarrow> ft_amenities ft = ''None listed'') \<and>
     ((\<exists>pt\<in>set amenity_table. found True (fst pt) d) \<longrightarrow>
        ft_amenities ft = py_join '', '' (map snd (filter (\<lambda>pt. found True (fst pt) d) amenity_table)))"
proof -
  obtain ft where ft: "extract_features d = Inr ft" using extract_features_total by blast
  note a = extract_features_amenities [OF ft]
  have 1: "ft_amenities ft \<noteq> []"
    unfolding a using py_join_nonempty [OF _ amenity_tags_nonempty, of d "'', ''"] by simp
  have 2: "(amenity_tags d = []) = (\<forall>pt\<in>set amenity_table. \<not> found True (fst pt) d)"
    unfolding amenity_tags_table by (simp add: filter_empty_conv)
  from 2 a have 3: "(\<forall>pt\<in>set amenity_table. \<not> found True (fst pt) d) \<longrightarrow> ft_amenities ft = ''None listed''"
    by simp
  from 2 a have 4: "(\<exists>pt\<in>set amenity_table. found True (fst pt) d) \<longrightarrow>
      ft_amenities ft = py_join '', '' (map snd (filter (\<lambda>pt. found True (fst pt) d) amenity_table))"
    unfolding amenity_tags_table [symmetric] by auto
  from ft 1 3 4 show ?thesis by blast
qed

text \<open>
  Claim C9 at a text without amenity keywords and at the text
  \<^verbatim>\<open>Free High-Speed Internet, Washer/Dryer in unit\<close>.
\<close>

theorem amenities_none_listed_or_joined_tags_witness:
  "\<not> found True internet_pattern plain_description \<and>
   \<not> found True water_trash_pattern plain_description \<and>
   \<not> found True washer_dryer_pattern plain_description \<and>
   \<not> found True gas_pattern plain_description \<and>
   (\<exists>ft. extract_features plain_description = Inr ft \<and> ft_amenities ft = ''None listed'') \<and>
   found True internet_pattern amenity_description \<and>
   found True washer_dryer_pattern amenity_description \<and>
   (\<exists>ft. extract_features amenity_description = Inr ft \<and>
         ft_amenities ft = ''Free Internet, In-Unit Washer/Dryer'')"
proof -
  have 1: "\<forall>pt\<in>set amenity_table. \<not> found True (fst pt) plain_description"
    by (simp add: amenity_table_def plain_description_found)
  have 2: "\<exists>pt\<in>set amenity_table. found True (fst pt) amenity_description"
    by (simp add: amenity_table_def amenity_description_found)
  have 3: "py_join '', '' (map snd (filter (\<lambda>pt. found True (fst pt) amenity_description) amenity_table)) =
      ''Free Internet, In-Unit Washer/Dryer''"
    by (simp add: amenity_table_def amenity_description_found)
  from amenities_none_listed_or_joined_tags [of plain_description] 1
  have "\<exists>ft. extract_features plain_description = Inr ft \<and> ft_amenities ft = ''None listed''"
    by blast
  moreover from amenities_none_listed_or_joined_tags [of amenity_description] 2
  have "\<exists>ft. extract_features amenity_description = Inr ft \<and>
      ft_amenities ft = ''Free Internet, In-Unit Washer/Dryer''"
    unfolding 3 by blast
  ultimately show ?thesis
    by (simp add: plain_description_found amenity_description_found)
qed

subsection \<open>C10: a listing line of one token\<close>

text \<open>
  Claim C10. A line without a blank is one token for \<^verbatim>\<open>line.split(' ', 1)\<close>: the
  assembler returns at once, leaving the parser as it was (no record) and raising
  nothing, before any extractor runs.
\<close>

theorem single_token_line_skipped:
  "CHR '' '' \<notin> set line \<Longrightarrow> parse_listing_line now self line a = Inr self"
  by (simp add: parse_listing_line_def py_split1_no_sep)

text \<open>
  Claim C10 at the line \<^verbatim>\<open>$,\<close>, a token on which the price extractor would raise.
\<close>

theorem single_token_line_skipped_witness:
  "CHR '' '' \<notin> set ''$,'' \<and>
   parse_listing_line id (init []) ''$,'' ''6543 Segovia Rd'' = Inr (init []) \<and>
   parse_price ''$,'' = Inl ValueError"
proof -
  have h: "CHR '' '' \<notin> set ''$,''" by simp
  have p: "parse_price ''$,'' = Inl ValueError" by (simp add: eval_all)
  from h p single_token_line_skipped [OF h, of id "init []" "''6543 Segovia Rd''"]
  show ?thesis by (intro conjI)
qed

end
